theory Spec2Isabelle
  imports Complex_Main "HOL-Library.AList" "HOL-Library.FSet"
begin

section \<open>The CDCL solver (cdcl.py)\<close>

text \<open>
  Exceptions of the Python run time that the solver code can raise: an index out of range,
  a missing dictionary key, \<^verbatim>\<open>next\<close> on an exhausted generator, \<^verbatim>\<open>max\<close> of an empty
  sequence. A raise is the left summand of a result.
\<close>

datatype py_error = IndexError | KeyError | StopIteration | ValueError

type_synonym clause = "int list"

text \<open>
  The fields of \<^verbatim>\<open>CDCLSolver\<close>. Literals are Python integers. \<^verbatim>\<open>assignment\<close> is a
  dictionary whose iteration order (insertion order) is read by \<^verbatim>\<open>unit_propagation\<close>, so
  it is an association list with distinct keys. \<^verbatim>\<open>variables\<close> is a Python set that is only
  added to, tested and iterated; it is the list of its elements in iteration order (taken
  to be insertion order; the concrete inputs evaluated below have a single variable).
  \<^verbatim>\<open>watch_list\<close> and \<^verbatim>\<open>var_activity\<close> are \<^verbatim>\<open>defaultdict\<close>s that are only read by
  \<^verbatim>\<open>.get(k, [])\<close> or by indexing, so they are total functions with the default value.
  \<^verbatim>\<open>restart_threshold\<close> and the activities are Python floats; they are kept as exact
  rationals (a product by 1.5 is exact in binary floating point while it fits the
  mantissa). The field \<^verbatim>\<open>occurrences\<close> is never read or written by the CDCL code and is left
  out.
\<close>

record cdcl_solver =
  clauses :: "clause list"
  variables :: "int list"
  assignment :: "(int \<times> bool) list"
  decision_level :: nat
  var_info :: "int \<rightharpoonup> (nat \<times> nat option)"
  watch_list :: "int \<Rightarrow> nat list"
  learned_clauses :: "clause list"
  trail :: "int list"
  trail_lim :: "nat list"
  conflict_count :: nat
  restart_threshold :: rat
  var_activity :: "int \<Rightarrow> rat"
  var_order :: "int list"

text \<open>\<^verbatim>\<open>CDCLSolver.__init__\<close>.\<close>

definition init_solver :: cdcl_solver where
  "init_solver =
     \<lparr>clauses = [], variables = [], assignment = [], decision_level = 0,
      var_info = Map.empty, watch_list = (\<lambda>_. []), learned_clauses = [], trail = [],
      trail_lim = [], conflict_count = 0, restart_threshold = 100,
      var_activity = (\<lambda>_. 0), var_order = []\<rparr>"

text \<open>\<^verbatim>\<open>k in self.assignment\<close>.\<close>

definition assigned :: "cdcl_solver \<Rightarrow> int \<Rightarrow> bool" where
  "assigned s k = (k \<in> set (map fst (assignment s)))"

text \<open>
  The registration of a clause under its first two literals, as written both in
  \<^verbatim>\<open>initialize_data_structures\<close> and in \<^verbatim>\<open>add_clause\<close>.
\<close>

definition watch_clause :: "nat \<Rightarrow> clause \<Rightarrow> (int \<Rightarrow> nat list) \<Rightarrow> (int \<Rightarrow> nat list)" where
  "watch_clause idx clause w =
     (case clause of
        [] \<Rightarrow> w
      | first_lit # rest \<Rightarrow>
          (let w1 = w(first_lit := w first_lit @ [idx])
           in case rest of
                [] \<Rightarrow> w1
              | second_lit # _ \<Rightarrow> w1(second_lit := w1 second_lit @ [idx])))"

definition initialize_data_structures :: "cdcl_solver \<Rightarrow> cdcl_solver" where
  "initialize_data_structures s =
     (let s1 = s\<lparr>var_activity := fold (\<lambda>var a. a(var := 0)) (variables s) (var_activity s),
                  var_order := var_order s @ variables s\<rparr>
      in s1\<lparr>watch_list :=
              fold (\<lambda>(clause_idx, clause) w. watch_clause clause_idx clause w)
                (enumerate 0 (clauses s1)) (watch_list s1)\<rparr>)"

text \<open>
  \<^verbatim>\<open>parse_dimacs\<close>, after the lexical layer: the argument is the list of the clause lines
  of the text (the lines that are neither blank nor start with \<^verbatim>\<open>c\<close> or \<^verbatim>\<open>p\<close>), each as
  the list of the integers \<^verbatim>\<open>int(tok)\<close> of its tokens. The last token is dropped
  (\<^verbatim>\<open>line.split()[:-1]\<close>), zeros are skipped, and an empty clause is not stored
  (\<^verbatim>\<open>if clause:\<close>).
\<close>

definition set_add :: "int \<Rightarrow> int list \<Rightarrow> int list" where
  "set_add v vs = (if v \<in> set vs then vs else vs @ [v])"

definition parse_clause_line :: "int list \<Rightarrow> cdcl_solver \<Rightarrow> cdcl_solver" where
  "parse_clause_line toks s =
     (let clause = filter (\<lambda>lit. lit \<noteq> 0) (butlast toks);
          s1 = s\<lparr>variables := fold (\<lambda>lit vs. set_add \<bar>lit\<bar> vs) clause (variables s)\<rparr>
      in if clause \<noteq> [] then s1\<lparr>clauses := clauses s1 @ [clause]\<rparr> else s1)"

definition parse_dimacs :: "int list list \<Rightarrow> cdcl_solver \<Rightarrow> cdcl_solver" where
  "parse_dimacs lines s = initialize_data_structures (fold parse_clause_line lines s)"

text \<open>\<^verbatim>\<open>assign\<close>: the dictionary is keyed by the literal, the value stored is always True.\<close>

definition assign :: "int \<Rightarrow> bool \<Rightarrow> nat option \<Rightarrow> cdcl_solver \<Rightarrow> cdcl_solver" where
  "assign var val antecedent s =
     (let lit = (if val then var else - var)
      in s\<lparr>assignment := AList.update lit True (assignment s),
            var_info := (var_info s)(var \<mapsto> (decision_level s, antecedent)),
            trail := trail s @ [lit]\<rparr>)"

text \<open>
  \<^verbatim>\<open>select_variable\<close>. Python's \<^verbatim>\<open>list.sort\<close> is stable, as \<open>sort_key\<close> is.
\<close>

definition select_variable :: "cdcl_solver \<Rightarrow> int option" where
  "select_variable s =
     (let unassigned = filter (\<lambda>var. \<not> assigned s var) (var_order s)
      in if unassigned = [] then None
         else (case sort_key (\<lambda>v. - var_activity s v) unassigned of
                 [] \<Rightarrow> None
               | v # _ \<Rightarrow> Some v))"

text \<open>
  \<^verbatim>\<open>backtrack\<close>: the inner loop pops the trail down to \<^verbatim>\<open>lim\<close>; \<^verbatim>\<open>del
  self.assignment[lit]\<close> raises KeyError for a missing key, \<^verbatim>\<open>self.trail_lim.pop()\<close>
  raises IndexError on an empty list.
\<close>

function pop_trail :: "nat \<Rightarrow> cdcl_solver \<Rightarrow> py_error + cdcl_solver" where
  "pop_trail lim0 s =
     (if length (trail s) > lim0 then
        (let lit = last (trail s);
             var = \<bar>lit\<bar>;
             s1 = s\<lparr>trail := butlast (trail s)\<rparr>
         in if \<not> assigned s1 lit then Inl KeyError
            else pop_trail lim0
                   (s1\<lparr>assignment := AList.delete lit (assignment s1),
                       var_info := (var_info s1)(var := None)\<rparr>))
      else Inr s)"
  by pat_completeness auto
termination
  by (relation "measure (\<lambda>(lim0, s). length (trail s))") auto

declare pop_trail.simps [simp del]

lemma pop_trail_decision_level:
  "pop_trail lim0 s = Inr s' \<Longrightarrow> decision_level s' = decision_level s"
proof (induction lim0 s rule: pop_trail.induct)
  case (1 lim0 s)
  show ?case
  proof (cases "length (trail s) > lim0")
    case True
    show ?thesis
      using "1.IH" [OF True refl refl refl] "1.prems" True
      unfolding pop_trail.simps [of lim0 s]
      by (auto simp: Let_def split: if_splits)
  next
    case False
    with "1.prems" show ?thesis by (simp add: pop_trail.simps [of lim0 s])
  qed
qed

function backtrack :: "nat \<Rightarrow> cdcl_solver \<Rightarrow> py_error + cdcl_solver" where
  "backtrack level s =
     (if decision_level s > level then
        (let s1 = s\<lparr>decision_level := decision_level s - 1\<rparr>
         in if trail_lim s1 = [] then Inl IndexError
            else (case pop_trail (last (trail_lim s1)) (s1\<lparr>trail_lim := butlast (trail_lim s1)\<rparr>) of
                    Inl e \<Rightarrow> Inl e
                  | Inr s2 \<Rightarrow> backtrack level s2))
      else Inr s)"
  by pat_completeness auto
termination
  by (relation "measure (\<lambda>(level, s). decision_level s - level)")
    (auto dest!: pop_trail_decision_level)

declare backtrack.simps [simp del]


text \<open>
  \<^verbatim>\<open>add_clause\<close>: the index registered is \<^verbatim>\<open>len(self.clauses) +
  len(self.learned_clauses) - 1\<close>, read after the append.
\<close>

definition add_clause :: "clause \<Rightarrow> cdcl_solver \<Rightarrow> cdcl_solver" where
  "add_clause clause s =
     (let s1 = s\<lparr>learned_clauses := learned_clauses s @ [clause]\<rparr>
      in s1\<lparr>watch_list :=
              watch_clause (length (clauses s1) + length (learned_clauses s1) - 1) clause
                (watch_list s1)\<rparr>)"

text \<open>
  \<^verbatim>\<open>bump_activity\<close>. A key missing from the \<^verbatim>\<open>defaultdict\<close> reads as 0.0 and the decay
  of 0.0 is 0.0, so the decay of the stored keys is the decay of the total function.
\<close>

definition bump_activity :: "clause \<Rightarrow> cdcl_solver \<Rightarrow> cdcl_solver" where
  "bump_activity clause s =
     (let s1 = s\<lparr>var_activity :=
                  fold (\<lambda>lit a. a(\<bar>lit\<bar> := a \<bar>lit\<bar> + 1)) clause (var_activity s)\<rparr>
      in if conflict_count s1 mod 100 = 0
         then s1\<lparr>var_activity := (\<lambda>var. var_activity s1 var * (95 / 100))\<rparr>
         else s1)"

text \<open>
  The clause behind an index: \<^verbatim>\<open>self.clauses[i] if i < len(self.clauses) else
  self.learned_clauses[i - len(self.clauses)]\<close>.
\<close>

definition clause_at :: "cdcl_solver \<Rightarrow> nat \<Rightarrow> py_error + clause" where
  "clause_at s idx =
     (if idx < length (clauses s) then Inr (clauses s ! idx)
      else if idx - length (clauses s) < length (learned_clauses s)
        then Inr (learned_clauses s ! (idx - length (clauses s)))
      else Inl IndexError)"

text \<open>
  \<^verbatim>\<open>analyze_conflict\<close>. The breadth-first loop over \<^verbatim>\<open>queue\<close>: the pair is
  (\<^verbatim>\<open>seen\<close>, \<^verbatim>\<open>queue\<close>).
\<close>

definition enqueue_unseen :: "int \<Rightarrow> int \<Rightarrow> int set \<times> int list \<Rightarrow> int set \<times> int list" where
  "enqueue_unseen var lit sq =
     (let v = \<bar>lit\<bar>
      in if v \<noteq> var \<and> v \<notin> fst sq then (insert v (fst sq), snd sq @ [v]) else sq)"

definition solver_vars :: "cdcl_solver \<Rightarrow> int set" where
  "solver_vars s = abs ` (\<Union>c \<in> set (clauses s @ learned_clauses s). set c)"

lemma finite_solver_vars: "finite (solver_vars s)"
  by (simp add: solver_vars_def)

lemma clause_at_mem:
  "clause_at s a = Inr c \<Longrightarrow> c \<in> set (clauses s @ learned_clauses s)"
  by (auto simp: clause_at_def split: if_splits)

lemma clause_at_vars: "clause_at s a = Inr c \<Longrightarrow> abs ` set c \<subseteq> solver_vars s"
  using clause_at_mem [of s a c] unfolding solver_vars_def by blast

lemma fold_enqueue_unseen:
  "fold (enqueue_unseen var) c (seen, q) = (seen', q') \<Longrightarrow>
     seen \<subseteq> seen' \<and> seen' \<subseteq> seen \<union> abs ` set c \<and>
     (seen' = seen \<and> q' = q \<or> seen \<subset> seen')"
proof (induction c arbitrary: seen q)
  case Nil
  then show ?case by simp
next
  case (Cons l c)
  obtain s1 q1 where st: "enqueue_unseen var l (seen, q) = (s1, q1)"
    by (cases "enqueue_unseen var l (seen, q)")
  with Cons.prems have "fold (enqueue_unseen var) c (s1, q1) = (seen', q')" by simp
  from Cons.IH [OF this]
  have ih: "s1 \<subseteq> seen'" "seen' \<subseteq> s1 \<union> abs ` set c" "seen' = s1 \<and> q' = q1 \<or> s1 \<subset> seen'"
    by auto
  from st have "s1 = seen \<and> q1 = q \<or> (s1 = insert \<bar>l\<bar> seen \<and> \<bar>l\<bar> \<notin> seen)"
    by (auto simp: enqueue_unseen_def Let_def split: if_splits)
  with ih show ?case by auto
qed

function analyze_loop :: "cdcl_solver \<Rightarrow> int list \<Rightarrow> int set \<Rightarrow> int list \<Rightarrow> py_error + int list" where
  "analyze_loop s queue seen current_level_lits =
     (case queue of
        [] \<Rightarrow> Inr current_level_lits
      | var # rest \<Rightarrow>
          (let info = (case var_info s var of None \<Rightarrow> (0, None) | Some li \<Rightarrow> li);
               level = fst info;
               antecedent = snd info;
               lits = (if level = decision_level s then current_level_lits @ [var]
                       else current_level_lits)
           in case antecedent of
                None \<Rightarrow> analyze_loop s rest seen lits
              | Some a \<Rightarrow>
                  (case clause_at s a of
                     Inl e \<Rightarrow> Inl e
                   | Inr antecedent_clause \<Rightarrow>
                       (let sq = fold (enqueue_unseen var) antecedent_clause (seen, rest)
                        in analyze_loop s (snd sq) (fst sq) lits))))"
  by pat_completeness auto
termination
proof (relation "inv_image (less_than <*lex*> less_than)
    (\<lambda>(s, queue, seen, lits). (card (solver_vars s - seen), length queue))", goal_cases)
  case 1
  show ?case by (intro wf_inv_image wf_lex_prod wf_less_than)
next
  case 2
  then show ?case by simp
next
  case (3 s queue seen lits var rest info level antecedent lits' a c sq)
  obtain seen' q' where sq: "fold (enqueue_unseen var) c (seen, rest) = (seen', q')"
    by (cases "fold (enqueue_unseen var) c (seen, rest)")
  from fold_enqueue_unseen [OF sq]
  have sub: "seen \<subseteq> seen'" "seen' \<subseteq> seen \<union> abs ` set c"
    and alt: "seen' = seen \<and> q' = rest \<or> seen \<subset> seen'" by auto
  from 3 have "clause_at s a = Inr c" by simp
  from clause_at_vars [OF this] have cv: "abs ` set c \<subseteq> solver_vars s" .
  from alt show ?case
  proof
    assume "seen' = seen \<and> q' = rest"
    with 3 sq show ?thesis by simp
  next
    assume strict: "seen \<subset> seen'"
    then obtain x where x: "x \<in> seen'" "x \<notin> seen" by auto
    with sub cv have xs: "x \<in> solver_vars s" by auto
    have "solver_vars s - seen' \<subset> solver_vars s - seen"
      using x xs sub by auto
    then have "card (solver_vars s - seen') < card (solver_vars s - seen)"
      by (intro psubset_card_mono) (auto simp: finite_solver_vars)
    with 3 sq show ?thesis by simp
  qed
qed

declare analyze_loop.simps [simp del]

text \<open>
  \<^verbatim>\<open>max(self.var_info[v][0] for v in ...)\<close>: KeyError at a variable without an entry,
  ValueError when there is no element.
\<close>

fun levels_of :: "cdcl_solver \<Rightarrow> int list \<Rightarrow> py_error + nat list" where
  "levels_of s [] = Inr []"
| "levels_of s (v # vs) =
     (case var_info s v of
        None \<Rightarrow> Inl KeyError
      | Some li \<Rightarrow> (case levels_of s vs of Inl e \<Rightarrow> Inl e | Inr ls \<Rightarrow> Inr (fst li # ls)))"

definition py_max :: "nat list \<Rightarrow> py_error + nat" where
  "py_max xs = (case xs of [] \<Rightarrow> Inl ValueError | x # rest \<Rightarrow> Inr (fold max rest x))"

definition analyze_conflict :: "clause \<Rightarrow> cdcl_solver \<Rightarrow> py_error + (clause \<times> nat)" where
  "analyze_conflict conflict_clause s =
     (let queue = map abs conflict_clause
      in case analyze_loop s queue (set queue) [] of
           Inl e \<Rightarrow> Inl e
         | Inr current_level_lits \<Rightarrow>
             if current_level_lits \<noteq> [] then
               (let uip = last current_level_lits;
                    learned_clause = filter (\<lambda>lit. \<bar>lit\<bar> \<noteq> uip) conflict_clause
                in if length current_level_lits > 1 then
                     (case levels_of s (filter (\<lambda>v. v \<noteq> uip) current_level_lits) of
                        Inl e \<Rightarrow> Inl e
                      | Inr levels \<Rightarrow>
                          (case py_max levels of
                             Inl e \<Rightarrow> Inl e
                           | Inr backtrack_level \<Rightarrow> Inr (learned_clause, backtrack_level)))
                   else Inr (learned_clause, 0))
             else Inr ([], 0))"


text \<open>
  \<^verbatim>\<open>unit_propagation\<close>. One visit of a watching clause either returns the clause as the
  conflict or goes on with the list \<^verbatim>\<open>to_remove\<close> and the solver.
\<close>

datatype visit = Conflict clause cdcl_solver | Next "(int \<times> nat) list" cdcl_solver

text \<open>
  The search for a new watch: the first literal of the clause that is different from
  \<^verbatim>\<open>neg_lit\<close> with its variable not a key of \<^verbatim>\<open>assignment\<close>, or whose variable is a key
  with the value \<^verbatim>\<open>other_lit > 0\<close>.
\<close>

definition watchable :: "cdcl_solver \<Rightarrow> int \<Rightarrow> int \<Rightarrow> bool" where
  "watchable s neg_lit other_lit =
     (let other_var = \<bar>other_lit\<bar>
      in (other_lit \<noteq> neg_lit \<and> \<not> assigned s other_var) \<or>
         (assigned s other_var \<and> map_of (assignment s) other_var = Some (other_lit > 0)))"

text \<open>The scan that collects \<^verbatim>\<open>unassigned\<close> and stops at a satisfied literal.\<close>

fun scan_clause :: "cdcl_solver \<Rightarrow> clause \<Rightarrow> int list \<Rightarrow> bool \<times> int list" where
  "scan_clause s [] unassigned = (False, unassigned)"
| "scan_clause s (l # ls) unassigned =
     (let v = \<bar>l\<bar>
      in if \<not> assigned s v then scan_clause s ls (unassigned @ [l])
         else if map_of (assignment s) v = Some (l > 0) then (True, unassigned)
         else scan_clause s ls unassigned)"

definition visit_clause :: "int \<Rightarrow> nat \<Rightarrow> (int \<times> nat) list \<Rightarrow> cdcl_solver \<Rightarrow> py_error + visit" where
  "visit_clause neg_lit clause_idx to_remove s =
     (case clause_at s clause_idx of
        Inl e \<Rightarrow> Inl e
      | Inr clause \<Rightarrow>
          (case find (watchable s neg_lit) clause of
             Some new_watch \<Rightarrow>
               Inr (Next (to_remove @ [(neg_lit, clause_idx)])
                      (s\<lparr>watch_list :=
                           (watch_list s)(new_watch := watch_list s new_watch @ [clause_idx])\<rparr>))
           | None \<Rightarrow>
               (let sat_un = scan_clause s clause [];
                    satisfied = fst sat_un;
                    unassigned = snd sat_un
                in if satisfied then Inr (Next to_remove s)
                   else if length unassigned = 1 then
                     (let unit_lit = hd unassigned;
                          unit_var = \<bar>unit_lit\<bar>
                      in if assigned s unit_var then
                           (if map_of (assignment s) unit_var \<noteq> Some (unit_lit > 0)
                            then Inr (Conflict clause s)
                            else Inr (Next to_remove s))
                         else Inr (Next to_remove
                                     (assign unit_var (unit_lit > 0) (Some clause_idx) s)))
                   else Inr (Conflict clause s))))"

text \<open>
  The \<^verbatim>\<open>for clause_idx in self.watch_list.get(neg_lit, [])\<close> loop. A Python list iterator
  reads the live list by position, and the body may append to that same list, so the
  loop is by position over the current list and may not end.
\<close>

partial_function (option) watch_loop ::
  "int \<Rightarrow> nat \<Rightarrow> (int \<times> nat) list \<Rightarrow> cdcl_solver \<Rightarrow> (py_error + visit) option" where
  "watch_loop neg_lit i to_remove s =
     (if i < length (watch_list s neg_lit) then
        (case visit_clause neg_lit (watch_list s neg_lit ! i) to_remove s of
           Inl e \<Rightarrow> Some (Inl e)
         | Inr (Conflict c s') \<Rightarrow> Some (Inr (Conflict c s'))
         | Inr (Next to_remove' s') \<Rightarrow> watch_loop neg_lit (i + 1) to_remove' s')
      else Some (Inr (Next to_remove s)))"

text \<open>The removal of the processed watches (\<^verbatim>\<open>list.remove\<close> drops the first occurrence).\<close>

definition remove_watches :: "(int \<times> nat) list \<Rightarrow> cdcl_solver \<Rightarrow> cdcl_solver" where
  "remove_watches to_remove s =
     s\<lparr>watch_list :=
         fold (\<lambda>(lit, idx) w. w(lit := remove1 idx (w lit))) to_remove (watch_list s)\<rparr>"

text \<open>
  \<^verbatim>\<open>next(lit for lit in self.assignment if abs(lit) not in {abs(x) for x in
  self.trail})\<close>.
\<close>

definition next_unprocessed :: "cdcl_solver \<Rightarrow> int option" where
  "next_unprocessed s =
     find (\<lambda>lit. \<bar>lit\<bar> \<notin> abs ` set (trail s)) (map fst (assignment s))"

text \<open>
  The result is None for a run that does not end, an exception, or the returned value
  (the conflicting clause or Python's None) with the solver after the call.
\<close>

partial_function (option) unit_propagation ::
  "cdcl_solver \<Rightarrow> (py_error + (clause option \<times> cdcl_solver)) option" where
  "unit_propagation s =
     (if length (trail s) < length (assignment s) then
        (case next_unprocessed s of
           None \<Rightarrow> Some (Inl StopIteration)
         | Some lit \<Rightarrow>
             Option.bind (watch_loop (- lit) 0 [] s)
               (\<lambda>r. case r of
                       Inl e \<Rightarrow> Some (Inl e)
                     | Inr (Conflict c s') \<Rightarrow> Some (Inr (Some c, s'))
                     | Inr (Next to_remove s') \<Rightarrow>
                         unit_propagation (remove_watches to_remove s')))
      else Some (Inr (None, s)))"

text \<open>
  The main loop \<^verbatim>\<open>cdcl\<close>. One iteration either returns the verdict or goes round again.
  The restart is the last statement of the conflict branch.
\<close>

datatype outcome = Return bool cdcl_solver | Continue cdcl_solver

definition restart :: "cdcl_solver \<Rightarrow> py_error + cdcl_solver" where
  "restart s = backtrack 0 (s\<lparr>restart_threshold := restart_threshold s * (3 / 2)\<rparr>)"

definition restart_if_needed :: "cdcl_solver \<Rightarrow> py_error + cdcl_solver" where
  "restart_if_needed s =
     (if of_nat (conflict_count s) \<ge> restart_threshold s then restart s else Inr s)"

definition conflict_branch :: "clause \<Rightarrow> cdcl_solver \<Rightarrow> py_error + outcome" where
  "conflict_branch conflict_clause s0 =
     (let s = s0\<lparr>conflict_count := conflict_count s0 + 1\<rparr>
      in if decision_level s = 0 then Inr (Return False s)
         else (case analyze_conflict conflict_clause s of
                 Inl e \<Rightarrow> Inl e
               | Inr (learned_clause, backtrack_level) \<Rightarrow>
                   (let s1 = s\<lparr>learned_clauses := learned_clauses s @ [learned_clause]\<rparr>;
                        s2 = add_clause learned_clause s1
                    in case backtrack backtrack_level s2 of
                         Inl e \<Rightarrow> Inl e
                       | Inr s3 \<Rightarrow>
                           (case restart_if_needed (bump_activity learned_clause s3) of
                              Inl e \<Rightarrow> Inl e
                            | Inr s4 \<Rightarrow> Inr (Continue s4)))))"

definition decide_branch :: "cdcl_solver \<Rightarrow> outcome" where
  "decide_branch s =
     (if list_all (assigned s) (variables s) then Return True s
      else (case select_variable s of
              None \<Rightarrow> Return True s
            | Some var \<Rightarrow>
                (let s1 = s\<lparr>decision_level := decision_level s + 1\<rparr>;
                     s2 = s1\<lparr>trail_lim := trail_lim s1 @ [length (trail s1)]\<rparr>
                 in Continue (assign var True None s2))))"

definition cdcl_iteration :: "cdcl_solver \<Rightarrow> (py_error + outcome) option" where
  "cdcl_iteration s =
     Option.bind (unit_propagation s)
       (\<lambda>r. case r of
               Inl e \<Rightarrow> Some (Inl e)
             | Inr (Some conflict_clause, s') \<Rightarrow> Some (conflict_branch conflict_clause s')
             | Inr (None, s') \<Rightarrow> Some (Inr (decide_branch s')))"

partial_function (option) cdcl :: "cdcl_solver \<Rightarrow> (py_error + (bool \<times> cdcl_solver)) option" where
  "cdcl s =
     Option.bind (cdcl_iteration s)
       (\<lambda>r. case r of
               Inl e \<Rightarrow> Some (Inl e)
             | Inr (Return verdict s') \<Rightarrow> Some (Inr (verdict, s'))
             | Inr (Continue s') \<Rightarrow> cdcl s')"

text \<open>
  The states of a solver object that is used through its entry points: the constructor,
  \<^verbatim>\<open>parse_dimacs\<close>, and the iterations of the main loop run by \<^verbatim>\<open>solve\<close>.
\<close>

inductive reachable :: "cdcl_solver \<Rightarrow> bool" where
  init: "reachable init_solver"
| parse: "reachable s \<Longrightarrow> reachable (parse_dimacs ls s)"
| iteration: "reachable s \<Longrightarrow> cdcl_iteration s = Some (Inr (Continue s')) \<Longrightarrow> reachable s'"
| returned: "reachable s \<Longrightarrow> cdcl_iteration s = Some (Inr (Return verdict s')) \<Longrightarrow> reachable s'"

text \<open>
  The value of a literal and of a clause under the solver's \<^verbatim>\<open>assignment\<close>, read as the
  solver itself reads it (\<^verbatim>\<open>v in self.assignment and self.assignment[v] == (l > 0)\<close>).
\<close>

definition lit_true :: "cdcl_solver \<Rightarrow> int \<Rightarrow> bool" where
  "lit_true s l = (assigned s \<bar>l\<bar> \<and> map_of (assignment s) \<bar>l\<bar> = Some (l > 0))"

definition clause_true :: "cdcl_solver \<Rightarrow> clause \<Rightarrow> bool" where
  "clause_true s c = list_ex (lit_true s) c"

text \<open>The clause lines of the DIMACS text \<^verbatim>\<open>1 0\<close>, \<^verbatim>\<open>-1 0\<close>.\<close>

definition unit_conflict_input :: "int list list" where
  "unit_conflict_input = [[1, 0], [- 1, 0]]"

section \<open>Sudoku variable layout (sudoku\_dp.py)\<close>

text \<open>
  \<^verbatim>\<open>encode_sudoku\<close> numbers the proposition "cell (row, col) holds num + 1" as
  \<^verbatim>\<open>row * n * n + col * n + num + 1\<close>; the expression is repeated in every clause
  family of the encoder. \<^verbatim>\<open>solve_sudoku_dp\<close> reads a true variable back with
  \<^verbatim>\<open>var_idx = var - 1; num = var_idx % n + 1; col = (var_idx // n) % n;
  row = var_idx // (n * n)\<close>. Python integers are unbounded, so they are \<open>int\<close>;
  Python's floor division and modulo agree with \<open>div\<close> and \<open>mod\<close> on \<open>int\<close>.
\<close>

definition sudoku_var :: "int \<Rightarrow> int \<Rightarrow> int \<Rightarrow> int \<Rightarrow> int" where
  "sudoku_var n row col num = row * n * n + col * n + num + 1"

text \<open>The triple is (row, col, num) as \<^verbatim>\<open>solve_sudoku_dp\<close> computes them.\<close>

definition decode_var :: "int \<Rightarrow> int \<Rightarrow> int \<times> int \<times> int" where
  "decode_var n var =
     (let var_idx = var - 1;
          num = var_idx mod n + 1;
          col = (var_idx div n) mod n;
          row = var_idx div (n * n)
      in (row, col, num))"


section \<open>CDCL: the parser keeps the trail and the assignment\<close>

lemma fold_parse_frame:
  "trail (fold parse_clause_line ls s) = trail s \<and>
   assignment (fold parse_clause_line ls s) = assignment s"
  by (induction ls arbitrary: s) (simp_all add: parse_clause_line_def Let_def)

lemma parse_dimacs_frame:
  "trail (parse_dimacs ls s) = trail s" "assignment (parse_dimacs ls s) = assignment s"
  by (simp_all add: parse_dimacs_def initialize_data_structures_def Let_def fold_parse_frame)

lemma parse_empty_line:
  assumes "filter (\<lambda>lit. lit \<noteq> 0) (butlast toks) = []"
  shows "parse_clause_line toks s = s"
  using assms by (simp add: parse_clause_line_def)

section \<open>CDCL: propagation is never entered\<close>

lemma unit_propagation_idle:
  "length (trail s) = length (assignment s) \<Longrightarrow> unit_propagation s = Some (Inr (None, s))"
  by (subst unit_propagation.simps) simp

lemma cdcl_iteration_idle:
  "length (trail s) = length (assignment s) \<Longrightarrow> cdcl_iteration s = Some (Inr (decide_branch s))"
  by (simp add: cdcl_iteration_def unit_propagation_idle)

lemma cdcl_idle:
  "length (trail s) = length (assignment s) \<Longrightarrow>
   cdcl s = (case decide_branch s of Return b s' \<Rightarrow> Some (Inr (b, s')) | Continue s' \<Rightarrow> cdcl s')"
  by (subst cdcl.simps) (simp add: cdcl_iteration_idle)

lemma select_variable_unassigned:
  assumes "select_variable s = Some v"
  shows "\<not> assigned s v"
proof -
  let ?un = "filter (\<lambda>var. \<not> assigned s var) (var_order s)"
  from assms obtain vs where "sort_key (\<lambda>v. - var_activity s v) ?un = v # vs"
    by (auto simp: select_variable_def Let_def split: if_splits list.splits)
  then have "v \<in> set (sort_key (\<lambda>v. - var_activity s v) ?un)" by simp
  then have "v \<in> set ?un" by simp
  then show ?thesis by simp
qed

lemma length_update_fresh:
  "k \<notin> fst ` set al \<Longrightarrow> length (AList.update k v al) = Suc (length al)"
  by (induction al) auto

lemma decide_branch_lockstep:
  assumes "length (trail s) = length (assignment s)" and "decide_branch s = Continue s'"
  shows "length (trail s') = length (assignment s')"
proof -
  from assms(2) obtain var where v: "select_variable s = Some var"
    and s': "s' = assign var True None
               (s\<lparr>decision_level := decision_level s + 1,
                   trail_lim := trail_lim s @ [length (trail s)]\<rparr>)"
    by (auto simp: decide_branch_def Let_def split: if_splits option.splits)
  from select_variable_unassigned [OF v] have "var \<notin> fst ` set (assignment s)"
    by (simp add: assigned_def)
  then show ?thesis using assms(1) by (simp add: s' assign_def length_update_fresh)
qed

lemma decide_branch_return: "decide_branch s = Return b s' \<Longrightarrow> s' = s"
  by (auto simp: decide_branch_def Let_def split: if_splits option.splits)

lemma reachable_lockstep: "reachable s \<Longrightarrow> length (trail s) = length (assignment s)"
proof (induction rule: reachable.induct)
  case init
  show ?case by (simp add: init_solver_def)
next
  case (parse s ls)
  then show ?case by (simp add: parse_dimacs_frame)
next
  case (iteration s s')
  then show ?case using decide_branch_lockstep [of s s'] by (simp add: cdcl_iteration_idle)
next
  case (returned s verdict s')
  then show ?case using decide_branch_return [of s verdict s'] by (simp add: cdcl_iteration_idle)
qed

text \<open>
  C6. In every reachable state of the solver the trail is as long as the assignment
  dictionary, so the guard \<^verbatim>\<open>len(self.trail) < len(self.assignment)\<close> of
  \<^verbatim>\<open>unit_propagation\<close> is false: the call returns None, not a conflict, and the solver
  (trail, assignment and watch lists included) is as it was.
\<close>

theorem propagation_never_runs:
  assumes "reachable s"
  shows "length (trail s) = length (assignment s) \<and> unit_propagation s = Some (Inr (None, s))"
  using reachable_lockstep [OF assms] unit_propagation_idle by simp

section \<open>CDCL on the input \<^verbatim>\<open>1 0\<close>, \<^verbatim>\<open>-1 0\<close>\<close>

lemma unit_conflict_parsed:
  "clauses (parse_dimacs unit_conflict_input init_solver) = [[1], [-1]]"
  "variables (parse_dimacs unit_conflict_input init_solver) = [1]"
  "var_order (parse_dimacs unit_conflict_input init_solver) = [1]"
  "trail (parse_dimacs unit_conflict_input init_solver) = []"
  "assignment (parse_dimacs unit_conflict_input init_solver) = []"
  "decision_level (parse_dimacs unit_conflict_input init_solver) = 0"
  "trail_lim (parse_dimacs unit_conflict_input init_solver) = []"
  "conflict_count (parse_dimacs unit_conflict_input init_solver) = 0"
  "var_info (parse_dimacs unit_conflict_input init_solver) = Map.empty"
  "var_activity (parse_dimacs unit_conflict_input init_solver) = (\<lambda>_. 0)"
  by (simp_all add: unit_conflict_input_def parse_dimacs_def parse_clause_line_def init_solver_def
     initialize_data_structures_def Let_def set_add_def fun_eq_iff)

text \<open>The solver after the first iteration: variable 1 decided true at level 1.\<close>

definition unit_conflict_decided :: cdcl_solver where
  "unit_conflict_decided =
     assign 1 True None
       ((parse_dimacs unit_conflict_input init_solver)\<lparr>decision_level := 1, trail_lim := [0]\<rparr>)"

lemma unit_conflict_final:
  "decision_level unit_conflict_decided = 1" "trail unit_conflict_decided = [1]"
  "trail_lim unit_conflict_decided = [0]" "conflict_count unit_conflict_decided = 0"
  "var_info unit_conflict_decided 1 = Some (1, None)"
  "clauses unit_conflict_decided = [[1], [-1]]"
  "assignment unit_conflict_decided = [(1, True)]"
  "variables unit_conflict_decided = [1]"
  "learned_clauses unit_conflict_decided = []"
  unfolding unit_conflict_decided_def
  by (simp_all add: assign_def unit_conflict_parsed)
    (simp_all add: init_solver_def parse_dimacs_def
        initialize_data_structures_def Let_def unit_conflict_input_def parse_clause_line_def)

lemma unit_conflict_first:
  "decide_branch (parse_dimacs unit_conflict_input init_solver) = Continue unit_conflict_decided"
proof -
  let ?s0 = "parse_dimacs unit_conflict_input init_solver"
  have sel: "select_variable ?s0 = Some 1"
    by (simp add: select_variable_def unit_conflict_parsed assigned_def Let_def)
  show ?thesis
    unfolding unit_conflict_decided_def
    by (simp add: decide_branch_def unit_conflict_parsed assigned_def sel Let_def)
qed

lemma unit_conflict_second:
  "decide_branch unit_conflict_decided = Return True unit_conflict_decided"
  by (simp add: decide_branch_def unit_conflict_final assigned_def)

lemma unit_conflict_run:
  "cdcl (parse_dimacs unit_conflict_input init_solver) = Some (Inr (True, unit_conflict_decided))"
proof -
  let ?s0 = "parse_dimacs unit_conflict_input init_solver"
  have l0: "length (trail ?s0) = length (assignment ?s0)"
    by (simp add: unit_conflict_parsed)
  have l1: "length (trail unit_conflict_decided) = length (assignment unit_conflict_decided)"
    by (simp add: unit_conflict_final)
  have "cdcl ?s0 = cdcl unit_conflict_decided"
    using cdcl_idle [OF l0] unfolding unit_conflict_first by simp
  also have "\<dots> = Some (Inr (True, unit_conflict_decided))"
    using cdcl_idle [OF l1] unfolding unit_conflict_second by simp
  finally show ?thesis .
qed

lemma unit_conflict_reachable: "reachable unit_conflict_decided"
proof -
  let ?s0 = "parse_dimacs unit_conflict_input init_solver"
  have r0: "reachable ?s0" by (intro reachable.parse reachable.init)
  have "length (trail ?s0) = length (assignment ?s0)"
    by (simp add: unit_conflict_parsed)
  from cdcl_iteration_idle [OF this]
  have "cdcl_iteration ?s0 = Some (Inr (Continue unit_conflict_decided))"
    unfolding unit_conflict_first .
  with r0 show ?thesis by (rule reachable.iteration)
qed

theorem propagation_never_runs_witness:
  "reachable unit_conflict_decided \<and> trail unit_conflict_decided = [1] \<and>
   clauses unit_conflict_decided = [[1], [- 1]] \<and>
   unit_propagation unit_conflict_decided = Some (Inr (None, unit_conflict_decided))"
  using propagation_never_runs [OF unit_conflict_reachable] unit_conflict_reachable
    unit_conflict_final
  by simp

text \<open>
  C4. On the two clauses \<open>{1}\<close>, \<open>{\<not>1}\<close> the claim asks for UNSAT at level 0 without a
  decision. The code decides variable 1 at level 1, sees no conflict and returns True (SAT):
  the final solver has decision level 1, the trail \<open>[1]\<close> with no antecedent for
  variable 1, and a conflict count of 0.
\<close>

theorem unit_conflict_reported_sat:
  "\<exists>s'. cdcl (parse_dimacs unit_conflict_input init_solver) = Some (Inr (True, s')) \<and>
     decision_level s' = 1 \<and> trail s' = [1] \<and> trail_lim s' = [0] \<and>
     conflict_count s' = 0 \<and> var_info s' 1 = Some (1, None)"
  using unit_conflict_run unit_conflict_final by blast

text \<open>
  C1. The model reported with SAT has to make every clause of the input true. On the
  clauses \<open>{1}\<close>, \<open>{\<not>1}\<close> the code returns True with the assignment \<open>{1: True}\<close>, under
  which the clause \<open>{\<not>1}\<close> is not true.
\<close>

theorem sat_model_falsifies_clause:
  "\<exists>s'. cdcl (parse_dimacs unit_conflict_input init_solver) = Some (Inr (True, s')) \<and>
     clauses s' = [[1], [- 1]] \<and> assignment s' = [(1, True)] \<and> \<not> clause_true s' [- 1]"
proof -
  have a: "assignment unit_conflict_decided = [(1, True)]" by (rule unit_conflict_final)
  have "\<not> clause_true unit_conflict_decided [- 1]"
    unfolding clause_true_def lit_true_def assigned_def a by simp
  then show ?thesis using unit_conflict_run unit_conflict_final by blast
qed

section \<open>CDCL: an empty clause in the input\<close>

text \<open>
  C3, as the claim states it, fails: the input whose only clause line is \<^verbatim>\<open>0\<close> (the empty
  clause) is reported SAT.
\<close>

theorem empty_clause_reported_sat:
  "\<exists>s'. cdcl (parse_dimacs [[0]] init_solver) = Some (Inr (True, s'))"
proof -
  have "parse_dimacs [[0]] init_solver = init_solver"
    by (simp add: parse_dimacs_def parse_clause_line_def init_solver_def
        initialize_data_structures_def)
  moreover have "decide_branch init_solver = Return True init_solver"
    by (simp add: decide_branch_def init_solver_def)
  moreover have "length (trail init_solver) = length (assignment init_solver)"
    by (simp add: init_solver_def)
  ultimately show ?thesis using cdcl_idle [of init_solver] by simp
qed

text \<open>
  C3, amended. A clause line without a non-zero literal before its last token (an empty
  clause) is dropped by \<^verbatim>\<open>parse_dimacs\<close> (\<^verbatim>\<open>if clause:\<close>): the solver built from the
  input is the solver built from the input without that line, and so is the result of
  solving.
\<close>

theorem empty_clause_line_dropped:
  assumes "filter (\<lambda>lit. lit \<noteq> 0) (butlast toks) = []"
  shows "parse_dimacs (xs @ toks # ys) s = parse_dimacs (xs @ ys) s \<and>
         cdcl (parse_dimacs (xs @ toks # ys) s) = cdcl (parse_dimacs (xs @ ys) s)"
  using assms by (simp add: parse_dimacs_def parse_empty_line)

theorem empty_clause_line_dropped_witness:
  "parse_dimacs ([[1, 2, 0]] @ [0] # [[- 1, 0]]) init_solver =
     parse_dimacs ([[1, 2, 0]] @ [[- 1, 0]]) init_solver \<and>
   cdcl (parse_dimacs ([[1, 2, 0]] @ [0] # [[- 1, 0]]) init_solver) =
     cdcl (parse_dimacs ([[1, 2, 0]] @ [[- 1, 0]]) init_solver)"
  using empty_clause_line_dropped [of "[0]" "[[1, 2, 0]]" "[[- 1, 0]]" init_solver] by simp

section \<open>Sudoku: decoding inverts encoding\<close>

lemma sudoku_var_div:
  fixes n row col num :: int
  assumes "0 \<le> col" "col < n" "0 \<le> num" "num < n"
  shows "(row * n * n + col * n + num) div (n * n) = row"
proof -
  have n: "0 < n" using assms by linarith
  have "col * n + num < n * n"
  proof -
    have "col * n \<le> (n - 1) * n" using assms n by (intro mult_right_mono) auto
    then show ?thesis using assms by (simp add: algebra_simps)
  qed
  moreover have "0 \<le> col * n + num" using assms n by simp
  ultimately have small: "(col * n + num) div (n * n) = 0"
    by (simp add: div_pos_pos_trivial)
  have nn: "n * n \<noteq> 0" using n by simp
  have "row * n * n + col * n + num = (col * n + num) + row * (n * n)"
    by (simp add: algebra_simps)
  then have "(row * n * n + col * n + num) div (n * n) = ((col * n + num) + row * (n * n)) div (n * n)"
    by (rule arg_cong)
  also have "\<dots> = row + (col * n + num) div (n * n)"
    using nn by (rule div_mult_self1)
  finally show ?thesis using small by simp
qed

lemma sudoku_var_col:
  fixes n row col num :: int
  assumes "0 \<le> col" "col < n" "0 \<le> num" "num < n"
  shows "((row * n * n + col * n + num) div n) mod n = col"
proof -
  have n: "0 < n" using assms by linarith
  have "row * n * n + col * n + num = num + (row * n + col) * n"
    by (simp add: algebra_simps)
  then have "(row * n * n + col * n + num) div n = row * n + col"
    using assms n by (simp add: div_pos_pos_trivial)
  then show ?thesis using assms by (simp add: mod_pos_pos_trivial)
qed

lemma sudoku_var_num:
  fixes n row col num :: int
  assumes "0 \<le> num" "num < n"
  shows "(row * n * n + col * n + num) mod n = num"
proof -
  have "row * n * n + col * n + num = num + (row * n + col) * n"
    by (simp add: algebra_simps)
  then show ?thesis using assms by (simp add: mod_pos_pos_trivial)
qed

text \<open>
  C10. For every grid size \<open>n = k * k\<close> and every \<open>row\<close>, \<open>col\<close>, \<open>num\<close> in \<open>[0, n)\<close>, decoding
  the variable \<open>row * n * n + col * n + num + 1\<close> gives back \<open>row\<close>, \<open>col\<close> and \<open>num + 1\<close>.
\<close>

theorem sudoku_decode_encode:
  assumes "n = k * k"
    and "0 \<le> row" "row < n" "0 \<le> col" "col < n" "0 \<le> num" "num < n"
  shows "decode_var n (sudoku_var n row col num) = (row, col, num + 1)"
  using sudoku_var_div [OF assms(4,5,6,7), of row]
    sudoku_var_col [OF assms(4,5,6,7), of row]
    sudoku_var_num [OF assms(6,7), of row col]
  by (simp add: decode_var_def sudoku_var_def Let_def)

theorem sudoku_decode_encode_witness:
  "(9::int) = 3 * 3 \<and> decode_var 9 (sudoku_var 9 4 7 2) = (4, 7, 3)"
  using sudoku_decode_encode [of 9 3 4 7 2] by simp

end
